theory Spec2Isabelle
  imports Main "HOL-Library.AList" "HOL-Library.Word"
begin

section \<open>The container manager of cadvisor: collectors and the registry\<close>

text \<open>
  The development embeds \<^verbatim>\<open>cadvisor/manager/container.go\<close> (the per-container
  collector, \<^verbatim>\<open>containerData\<close>) and the manager file beside it (the registry,
  \<^verbatim>\<open>manager\<close>). The model is sequential: one call runs from its entry to its
  return. The locks and the stop channel only order concurrent goroutines and are
  left out of the records; \<^verbatim>\<open>Stop\<close>, whose body is one send on that channel
  followed by \<^verbatim>\<open>return nil\<close>, is its return value.

  The container handler is an external collaborator. A function of the model that
  calls it takes what the call returned as an argument, in the order of the calls
  of the source, so a theorem about every answer is a theorem about every handler
  whose calls return.
\<close>

subsection \<open>Pointers, errors, outcomes\<close>

text \<open>A Go pointer is an address or \<^verbatim>\<open>nil\<close> (\<open>None\<close>).\<close>

type_synonym addr = nat
type_synonym ptr = "addr option"

text \<open>\<^verbatim>\<open>time.Time\<close>: an instant, as a number.\<close>

type_synonym time = int

text \<open>
  The \<^verbatim>\<open>error\<close> values of the two files. The manager builds its own with
  \<^verbatim>\<open>fmt.Errorf\<close>, one constructor for each format string with the format's
  arguments; whatever the collaborator returns is carried along unchanged.
  \<^item> \<open>UnknownContainer n\<close>: \<^verbatim>\<open>unknown container "n"\<close>
  \<^item> \<open>ExpectedToExist n\<close>: \<^verbatim>\<open>Expected container "n" to exist during destroy\<close>
  \<^item> \<open>RootNotFound\<close>: \<^verbatim>\<open>Failed to find container "/" while checking for new containers\<close>
  \<^item> \<open>FailedToCreate n e\<close>: \<^verbatim>\<open>Failed to create existing container: n: e\<close>
  \<^item> \<open>FailedToDestroy n e\<close>: \<^verbatim>\<open>Failed to destroy existing container: n: e\<close>
\<close>

datatype error =
    HandlerError string
  | UnknownContainer string
  | ExpectedToExist string
  | RootNotFound
  | FailedToCreate string error
  | FailedToDestroy string error

text \<open>
  A call either returns or panics (a nil dereference; nothing in the two files
  recovers). A returned Go \<^verbatim>\<open>error\<close> is \<open>error option\<close>, \<open>None\<close> for
  \<^verbatim>\<open>nil\<close>.
\<close>

datatype 'a outcome = Returns 'a | Panics

subsection \<open>\<^verbatim>\<open>container/list\<close>, as far as the collector uses it\<close>

text \<open>
  The history is a \<^verbatim>\<open>list.List\<close>, front first. \<^verbatim>\<open>l.Remove(l.Front())\<close>:
  \<^verbatim>\<open>Front\<close> of an empty list is \<^verbatim>\<open>nil\<close>, and \<^verbatim>\<open>Remove\<close> reads
  \<^verbatim>\<open>e.list\<close> of its argument first, which panics on \<^verbatim>\<open>nil\<close>.
\<close>

definition RemoveFront :: "'a list \<Rightarrow> 'a list outcome" where
  "RemoveFront l = (case l of [] \<Rightarrow> Panics | front # rest \<Rightarrow> Returns rest)"

definition PushBack :: "'a list \<Rightarrow> 'a \<Rightarrow> 'a list" where
  "PushBack l v = l @ [v]"

subsection \<open>The collector: \<^verbatim>\<open>container.go\<close>\<close>

record containerStat =
  Timestamp :: time
  Data :: ptr

record containerInfo =
  Name :: string
  Subcontainers :: "string list"
  Spec :: ptr
  Stats :: "containerStat list"
  StatsSummary :: ptr

record 'h containerData =
  handler :: 'h
  info :: containerInfo

text \<open>
  What the handler and the clock answer during one housekeeping tick:
  \<^verbatim>\<open>c.handler.GetStats()\<close>, \<^verbatim>\<open>c.handler.StatsSummary()\<close> and
  \<^verbatim>\<open>time.Now()\<close>. A \<^verbatim>\<open>nil\<close> statistics pointer with a \<^verbatim>\<open>nil\<close> error
  means that there is no sample.
\<close>

record tick =
  tick_GetStats :: "error + ptr"
  tick_StatsSummary :: "error + ptr"
  tick_Now :: time

definition updateSpec ::
  "'h containerData \<Rightarrow> error + ptr \<Rightarrow> error option \<times> 'h containerData" where
  "updateSpec c getSpec =
     (case getSpec of
        Inl err \<Rightarrow> (Some err, c)
      | Inr spec \<Rightarrow> (None, c\<lparr>info := (info c)\<lparr>Spec := spec\<rparr>\<rparr>))"

definition updateSubcontainers ::
  "'h containerData \<Rightarrow> error + string list \<Rightarrow> error option \<times> 'h containerData" where
  "updateSubcontainers c listContainers =
     (case listContainers of
        Inl err \<Rightarrow> (Some err, c)
      | Inr subcontainers \<Rightarrow> (None, c\<lparr>info := (info c)\<lparr>Subcontainers := subcontainers\<rparr>\<rparr>))"

text \<open>
  \<^verbatim>\<open>historyDuration\<close> is the value of the integer flag \<^verbatim>\<open>history_duration\<close>
  (60 unless set); any integer can be given on the command line.
\<close>

definition updateStats ::
  "int \<Rightarrow> 'h containerData \<Rightarrow> tick \<Rightarrow> (error option \<times> 'h containerData) outcome" where
  "updateStats historyDuration c t =
     (case tick_GetStats t of
        Inl err \<Rightarrow> Returns (Some err, c)
      | Inr stats \<Rightarrow>
          (case stats of
             None \<Rightarrow> Returns (None, c)
           | Some a \<Rightarrow>
               (case tick_StatsSummary t of
                  Inl err \<Rightarrow> Returns (Some err, c)
                | Inr summary \<Rightarrow>
                    (let timestamp = tick_Now t;
                         push = (\<lambda>l. c\<lparr>info := (info c)
                                   \<lparr>Stats := PushBack l \<lparr>Timestamp = timestamp, Data = stats\<rparr>,
                                    StatsSummary := summary\<rparr>\<rparr>)
                     in if int (length (Stats (info c))) \<ge> historyDuration
                        then (case RemoveFront (Stats (info c)) of
                                Panics \<Rightarrow> Panics
                              | Returns l \<Rightarrow> Returns (None, push l))
                        else Returns (None, push (Stats (info c)))))))"

text \<open>\<^verbatim>\<open>housekeepingTick\<close> logs the error of \<^verbatim>\<open>updateStats\<close> and drops it.\<close>

definition housekeepingTick :: "int \<Rightarrow> 'h containerData \<Rightarrow> tick \<Rightarrow> 'h containerData outcome" where
  "housekeepingTick historyDuration c t =
     (case updateStats historyDuration c t of
        Panics \<Rightarrow> Panics
      | Returns (err, c') \<Rightarrow> Returns c')"

text \<open>
  The loop of \<^verbatim>\<open>housekeeping\<close>: one \<^verbatim>\<open>housekeepingTick\<close> for each tick of the
  timer, here for each element of the list of answers, until the stop signal (the
  end of the list).
\<close>

fun housekeeping :: "int \<Rightarrow> 'h containerData \<Rightarrow> tick list \<Rightarrow> 'h containerData outcome" where
  "housekeeping historyDuration c [] = Returns c"
| "housekeeping historyDuration c (t # ts) =
     (case housekeepingTick historyDuration c t of
        Panics \<Rightarrow> Panics
      | Returns c' \<Rightarrow> housekeeping historyDuration c' ts)"

text \<open>
  \<^verbatim>\<open>Start\<close> forces the first update, then starts the goroutine that runs
  \<^verbatim>\<open>housekeeping\<close>, and returns \<^verbatim>\<open>nil\<close>.
\<close>

definition Start ::
  "int \<Rightarrow> 'h containerData \<Rightarrow> tick \<Rightarrow> (error option \<times> 'h containerData) outcome" where
  "Start historyDuration c t =
     (case housekeepingTick historyDuration c t of
        Panics \<Rightarrow> Panics
      | Returns c' \<Rightarrow> Returns (None, c'))"

definition Stop :: "'h containerData \<Rightarrow> error option" where
  "Stop c = None"

text \<open>
  \<^verbatim>\<open>GetInfo\<close> returns a pointer to the copy \<^verbatim>\<open>ret := c.info\<close>. The copy is
  of the struct: its \<^verbatim>\<open>Spec\<close> is the pointer that the collector holds.
\<close>

definition GetInfo ::
  "'h containerData \<Rightarrow> error + ptr \<Rightarrow> error + string list
     \<Rightarrow> (error + containerInfo) \<times> 'h containerData" where
  "GetInfo c getSpec listContainers =
     (case updateSpec c getSpec of
        (Some err, c1) \<Rightarrow> (Inl err, c1)
      | (None, c1) \<Rightarrow>
          (case updateSubcontainers c1 listContainers of
             (Some err, c2) \<Rightarrow> (Inl err, c2)
           | (None, c2) \<Rightarrow> (Inr (info c2), c2)))"

text \<open>
  \<^verbatim>\<open>NewContainerData\<close>, given what \<^verbatim>\<open>container.NewContainerHandler\<close>
  returned. The fields it does not set hold Go's zero values.
\<close>

definition NewContainerData :: "string \<Rightarrow> error + 'h \<Rightarrow> error + 'h containerData" where
  "NewContainerData containerName newContainerHandler =
     (case newContainerHandler of
        Inl err \<Rightarrow> Inl err
      | Inr h \<Rightarrow>
          Inr \<lparr>handler = h,
               info = \<lparr>Name = containerName, Subcontainers = [], Spec = None,
                       Stats = [], StatsSummary = None\<rparr>\<rparr>)"

text \<open>A tick on which the handler gives the sample \<open>a\<close> and the summary \<open>s\<close> at time \<open>n\<close>.\<close>

definition sampleTick :: "addr \<times> ptr \<times> time \<Rightarrow> tick" where
  "sampleTick x = (case x of (a, s, n) \<Rightarrow>
     \<lparr>tick_GetStats = Inr (Some a), tick_StatsSummary = Inr s, tick_Now = n\<rparr>)"

definition sampleStat :: "addr \<times> ptr \<times> time \<Rightarrow> containerStat" where
  "sampleStat x = (case x of (a, s, n) \<Rightarrow> \<lparr>Timestamp = n, Data = Some a\<rparr>)"

subsection \<open>The objects of package \<^verbatim>\<open>info\<close>\<close>

text \<open>
  Modelled from the spec: the declarations of \<^verbatim>\<open>info.ContainerSpec\<close> and
  \<^verbatim>\<open>info.MemorySpec\<close> are not among the sources. The manager's code fixes the
  shapes it uses: \<^verbatim>\<open>Spec.Memory\<close> is compared with \<^verbatim>\<open>nil\<close> and has a
  field \<^verbatim>\<open>Limit\<close>, so it is a pointer to a struct, and \<^verbatim>\<open>Limit\<close> is
  compared with 0 and receives a \<^verbatim>\<open>uint64\<close>.

  Specs are objects on the heap, reached through pointers. The heap is given
  field by field: \<open>Memory h a\<close> is the field \<^verbatim>\<open>Memory\<close> of the
  \<^verbatim>\<open>ContainerSpec\<close> at address \<open>a\<close>, and \<open>Limit h b\<close> the field
  \<^verbatim>\<open>Limit\<close> of the \<^verbatim>\<open>MemorySpec\<close> at address \<open>b\<close>. Every address holds
  an object, as a non-nil Go pointer always does.
\<close>

record heap =
  Memory :: "addr \<Rightarrow> ptr"
  Limit :: "addr \<Rightarrow> 64 word"

text \<open>
  Modelled from the spec: the declaration of \<^verbatim>\<open>info.MachineInfo\<close> is not among
  the sources. \<^verbatim>\<open>MemoryCapacity\<close> is the machine's total memory capacity, taken
  as a 64-bit integer; the conversion \<^verbatim>\<open>uint64(...)\<close> that the manager applies
  to it keeps its bits.
\<close>

record MachineInfo =
  MemoryCapacity :: "64 word"

text \<open>
  Modelled from the spec: the declaration of \<^verbatim>\<open>info.ContainerInfo\<close> is not among
  the sources. Its fields are those that \<^verbatim>\<open>GetContainerInfo\<close> fills:
  \<^verbatim>\<open>Spec\<close> is assigned from a \<^verbatim>\<open>*info.ContainerSpec\<close>, so it is that
  pointer; \<^verbatim>\<open>Stats\<close> is a slice of pointers to statistics.
\<close>

record info_ContainerInfo =
  info_Name :: string
  info_Subcontainers :: "string list"
  info_Spec :: ptr
  info_Stats :: "ptr list"
  info_StatsSummary :: ptr

subsection \<open>The registry: the manager\<close>

text \<open>
  \<^verbatim>\<open>m.containers\<close> is a Go map from names to pointers to collectors. It is an
  association list: \<open>map_of\<close> looks a name up, \<open>AList.update\<close> assigns (in place
  when the name is there, which is also how a collector changed through its
  pointer is written back), \<open>AList.delete\<close> deletes, and \<^verbatim>\<open>range\<close> visits the
  entries in the order of the list. Go leaves that order open; the theorems
  below hold for every list, and speak of the visited names as sets.
\<close>

record 'h manager =
  containers :: "(string \<times> 'h containerData) list"
  machineInfo :: MachineInfo

text \<open>
  \<^verbatim>\<open>GetContainerInfo\<close>, given the spec pointer and the list of children that the
  collector's handler returns to \<^verbatim>\<open>GetInfo\<close>, on the heap \<open>h\<close> as those two
  calls leave it. It returns the result, the manager and the heap.
\<close>

definition GetContainerInfo ::
  "'h manager \<Rightarrow> heap \<Rightarrow> string \<Rightarrow> error + ptr \<Rightarrow> error + string list
     \<Rightarrow> ((error + info_ContainerInfo) \<times> 'h manager \<times> heap) outcome" where
  "GetContainerInfo m h containerName getSpec listContainers =
     (case map_of (containers m) containerName of
        None \<Rightarrow> Returns (Inl (UnknownContainer containerName), m, h)
      | Some cont \<Rightarrow>
          (case GetInfo cont getSpec listContainers of
             (Inl err, cont') \<Rightarrow>
               Returns (Inl err,
                        m\<lparr>containers := AList.update containerName cont' (containers m)\<rparr>, h)
           | (Inr cinfo, cont') \<Rightarrow>
               (let m' = m\<lparr>containers := AList.update containerName cont' (containers m)\<rparr>;
                    ret = \<lparr>info_Name = Name cinfo,
                           info_Subcontainers = Subcontainers cinfo,
                           info_Spec = Spec cinfo,
                           info_Stats = [],
                           info_StatsSummary = StatsSummary cinfo\<rparr>
                in case info_Spec ret of
                     None \<Rightarrow> Panics
                   | Some spec \<Rightarrow>
                       (let h' = (case Memory h spec of
                                    None \<Rightarrow> h
                                  | Some memory \<Rightarrow>
                                      if Limit h memory = 0
                                      then h\<lparr>Limit := (Limit h)
                                             (memory := MemoryCapacity (machineInfo m))\<rparr>
                                      else h)
                        in Returns (Inr (ret\<lparr>info_Stats := map Data (Stats cinfo)\<rparr>),
                                    m', h')))))"

text \<open>
  What the outside answers to one call of \<^verbatim>\<open>createContainer\<close>: the result of
  \<^verbatim>\<open>container.NewContainerHandler\<close>, and the first tick of the new
  collector, forced by \<^verbatim>\<open>Start\<close>.
\<close>

record 'h creation =
  create_NewContainerHandler :: "error + 'h"
  create_tick :: tick

definition createContainer ::
  "int \<Rightarrow> 'h manager \<Rightarrow> string \<Rightarrow> 'h creation
     \<Rightarrow> ((error + 'h containerData) \<times> 'h manager) outcome" where
  "createContainer historyDuration m containerName r =
     (case NewContainerData containerName (create_NewContainerHandler r) of
        Inl err \<Rightarrow> Returns (Inl err, m)
      | Inr cont \<Rightarrow>
          (let m1 = m\<lparr>containers := AList.update containerName cont (containers m)\<rparr>
           in case Start historyDuration cont (create_tick r) of
                Panics \<Rightarrow> Panics
              | Returns (err, cont') \<Rightarrow>
                  Returns (Inr cont',
                           m1\<lparr>containers := AList.update containerName cont' (containers m1)\<rparr>)))"

definition destroyContainer :: "'h manager \<Rightarrow> string \<Rightarrow> error option \<times> 'h manager" where
  "destroyContainer m containerName =
     (case map_of (containers m) containerName of
        None \<Rightarrow> (Some (ExpectedToExist containerName), m)
      | Some cont \<Rightarrow>
          (case Stop cont of
             Some err \<Rightarrow> (Some err, m)
           | None \<Rightarrow> (None, m\<lparr>containers := AList.delete containerName (containers m)\<rparr>)))"

text \<open>
  The second loop of \<^verbatim>\<open>getContainersDiff\<close>, over \<^verbatim>\<open>allContainers\<close>: the name
  leaves \<^verbatim>\<open>allContainersSet\<close>, and joins \<^verbatim>\<open>added\<close> when the manager does not
  track it.
\<close>

fun diffLoop ::
  "(string \<times> 'v) list \<Rightarrow> string list \<Rightarrow> string list \<times> (string \<times> unit) list
     \<Rightarrow> string list \<times> (string \<times> unit) list" where
  "diffLoop cs [] (added, allContainersSet) = (added, allContainersSet)"
| "diffLoop cs (name # names) (added, allContainersSet) =
     diffLoop cs names
       (if map_of cs name = None then added @ [name] else added,
        AList.delete name allContainersSet)"

text \<open>
  \<^verbatim>\<open>getContainersDiff\<close>, given what \<^verbatim>\<open>ListContainers(LIST_RECURSIVE)\<close> of the
  root's handler returned. The result is \<^verbatim>\<open>(added, removed)\<close> or the error.
\<close>

definition getContainersDiff ::
  "'h manager \<Rightarrow> error + string list \<Rightarrow> error + string list \<times> string list" where
  "getContainersDiff m listContainers =
     (case map_of (containers m) ''/'' of
        None \<Rightarrow> Inl RootNotFound
      | Some cont \<Rightarrow>
          (case listContainers of
             Inl err \<Rightarrow> Inl err
           | Inr listed \<Rightarrow>
               (let allContainers = listed @ [''/''];
                    allContainersSet =
                      fold (\<lambda>name. AList.update name ()) (map fst (containers m)) [];
                    (added, rest) = diffLoop (containers m) allContainers ([], allContainersSet);
                    removed = map fst rest
                in Inr (added, removed))))"

text \<open>
  The two loops of \<^verbatim>\<open>detectContainers\<close>. \<open>creates k\<close> is what the outside answers
  to the call of \<^verbatim>\<open>createContainer\<close> number \<open>k\<close> of the pass.
\<close>

fun createLoop ::
  "int \<Rightarrow> 'h manager \<Rightarrow> string list \<Rightarrow> (nat \<Rightarrow> 'h creation) \<Rightarrow> nat
     \<Rightarrow> (error option \<times> 'h manager) outcome" where
  "createLoop historyDuration m [] creates k = Returns (None, m)"
| "createLoop historyDuration m (name # names) creates k =
     (case createContainer historyDuration m name (creates k) of
        Panics \<Rightarrow> Panics
      | Returns r \<Rightarrow>
          (case r of
             (Inl err, m') \<Rightarrow> Returns (Some (FailedToCreate name err), m')
           | (Inr cont, m') \<Rightarrow> createLoop historyDuration m' names creates (Suc k)))"

fun destroyLoop :: "'h manager \<Rightarrow> string list \<Rightarrow> error option \<times> 'h manager" where
  "destroyLoop m [] = (None, m)"
| "destroyLoop m (name # names) =
     (case destroyContainer m name of
        (Some err, m') \<Rightarrow> (Some (FailedToDestroy name err), m')
      | (None, m') \<Rightarrow> destroyLoop m' names)"

definition detectContainers ::
  "int \<Rightarrow> 'h manager \<Rightarrow> error + string list \<Rightarrow> (nat \<Rightarrow> 'h creation)
     \<Rightarrow> (error option \<times> 'h manager) outcome" where
  "detectContainers historyDuration m listContainers creates =
     (case getContainersDiff m listContainers of
        Inl err \<Rightarrow> Returns (Some err, m)
      | Inr (added, removed) \<Rightarrow>
          (case createLoop historyDuration m added creates 0 of
             Panics \<Rightarrow> Panics
           | Returns r \<Rightarrow>
               (case r of
                  (Some err, m1) \<Rightarrow> Returns (Some err, m1)
                | (None, m1) \<Rightarrow> Returns (destroyLoop m1 removed))))"

subsection \<open>The lists that the diff returns\<close>

text \<open>
  The two results of \<^verbatim>\<open>getContainersDiff\<close> in closed form, for the proofs:
  the listed names (and the root) that are not tracked, in the order of the
  listing, and the tracked names that are not listed.
\<close>

definition diffAdded :: "(string \<times> 'v) list \<Rightarrow> string list \<Rightarrow> string list" where
  "diffAdded cs L = filter (\<lambda>n. map_of cs n = None) (L @ [''/''])"

definition diffRemoved :: "(string \<times> 'v) list \<Rightarrow> string list \<Rightarrow> string list" where
  "diffRemoved cs L =
     map fst (filter (\<lambda>p. fst p \<notin> set (L @ [''/'']))
                (fold (\<lambda>name. AList.update name ()) (map fst cs) []))"

subsection \<open>Concrete collectors, registries and heaps\<close>

text \<open>
  A fresh collector as \<^verbatim>\<open>NewContainerData\<close> makes it; a registry that tracks the
  root and \<^verbatim>\<open>/a\<close> on a machine with 1024 bytes of memory; a heap whose spec at
  address 0 has its memory spec at address 1, with the limit unset (0) or set (512).
\<close>

definition collector :: "string \<Rightarrow> unit containerData" where
  "collector name =
     \<lparr>handler = (),
      info = \<lparr>Name = name, Subcontainers = [], Spec = None, Stats = [], StatsSummary = None\<rparr>\<rparr>"

definition registry :: "unit manager" where
  "registry =
     \<lparr>containers = [(''/'', collector ''/''), (''/a'', collector ''/a'')],
      machineInfo = \<lparr>MemoryCapacity = 1024\<rparr>\<rparr>"

definition unsetHeap :: heap where
  "unsetHeap = \<lparr>Memory = (\<lambda>a. if a = 0 then Some 1 else None), Limit = (\<lambda>b. 0)\<rparr>"

definition limitedHeap :: heap where
  "limitedHeap = \<lparr>Memory = (\<lambda>a. if a = 0 then Some 1 else None), Limit = (\<lambda>b. 512)\<rparr>"

text \<open>
  Answers of the outside to the creations of a pass: every handler is made and
  its first tick yields a sample; or the second creation of the pass fails.
\<close>

definition answering :: "nat \<Rightarrow> unit creation" where
  "answering k =
     \<lparr>create_NewContainerHandler = Inr (), create_tick = sampleTick (11, None, 1)\<rparr>"

definition failingSecond :: "nat \<Rightarrow> unit creation" where
  "failingSecond k =
     \<lparr>create_NewContainerHandler = (if k = 1 then Inl (HandlerError ''gone'') else Inr ()),
      create_tick = sampleTick (11, None, 1)\<rparr>"

text \<open>
  A collector after its first tick, the registries that the passes below leave,
  and a collector whose history holds two samples.
\<close>

definition started :: "string \<Rightarrow> unit containerData" where
  "started name =
     \<lparr>handler = (),
      info = \<lparr>Name = name, Subcontainers = [], Spec = None,
              Stats = [\<lparr>Timestamp = 1, Data = Some 11\<rparr>], StatsSummary = None\<rparr>\<rparr>"

definition reconciled :: "unit manager" where
  "reconciled =
     \<lparr>containers = [(''/'', collector ''/''), (''/b'', started ''/b'')],
      machineInfo = \<lparr>MemoryCapacity = 1024\<rparr>\<rparr>"

definition withB :: "unit manager" where
  "withB =
     \<lparr>containers = [(''/'', collector ''/''), (''/a'', collector ''/a''), (''/b'', started ''/b'')],
      machineInfo = \<lparr>MemoryCapacity = 1024\<rparr>\<rparr>"

definition fullCollector :: "unit containerData" where
  "fullCollector =
     \<lparr>handler = (),
      info = \<lparr>Name = ''/a'', Subcontainers = [], Spec = None,
              Stats = [\<lparr>Timestamp = 1, Data = Some 11\<rparr>, \<lparr>Timestamp = 2, Data = Some 12\<rparr>],
              StatsSummary = None\<rparr>\<rparr>"

definition afterA :: "unit manager" where
  "afterA =
     \<lparr>containers = [(''/'', collector ''/'')], machineInfo = \<lparr>MemoryCapacity = 1024\<rparr>\<rparr>"

section \<open>The collector's history\<close>

subsection \<open>One tick\<close>

lemma updateStats_sample_full:
  assumes "int (length (Stats (info c))) \<ge> d" "Stats (info c) \<noteq> []"
  shows "updateStats d c (sampleTick (a, s, n)) =
     Returns (None, c\<lparr>info := (info c)\<lparr>Stats := tl (Stats (info c)) @ [sampleStat (a, s, n)],
                                        StatsSummary := s\<rparr>\<rparr>)"
  using assms
  by (cases "Stats (info c)")
     (simp_all add: updateStats_def sampleTick_def sampleStat_def RemoveFront_def PushBack_def)

lemma updateStats_sample_room:
  assumes "int (length (Stats (info c))) < d"
  shows "updateStats d c (sampleTick (a, s, n)) =
     Returns (None, c\<lparr>info := (info c)\<lparr>Stats := Stats (info c) @ [sampleStat (a, s, n)],
                                        StatsSummary := s\<rparr>\<rparr>)"
  using assms
  by (simp add: updateStats_def sampleTick_def sampleStat_def PushBack_def)

lemma updateStats_sample_empty_panics:
  assumes "d \<le> 0" "Stats (info c) = []"
  shows "updateStats d c (sampleTick (a, s, n)) = Panics"
  using assms
  by (simp add: updateStats_def sampleTick_def RemoveFront_def)

text \<open>
  Claim C5. A tick on which the handler reports that there is no sample (a
  \<^verbatim>\<open>nil\<close> statistics pointer with a \<^verbatim>\<open>nil\<close> error) returns no error and
  leaves the collector as it was, whatever the rest of the tick's answers: the
  history, its length and the summary are unchanged, nothing is removed and
  nothing is appended.
\<close>

theorem updateStats_no_sample:
  "updateStats d c (t\<lparr>tick_GetStats := Inr None\<rparr>) = Returns (None, c)
   \<and> housekeepingTick d c (t\<lparr>tick_GetStats := Inr None\<rparr>) = Returns c"
  by (simp add: updateStats_def housekeepingTick_def)

text \<open>
  Claim C3, as stated, fails when the flag is 0: the empty history satisfies
  \<open>len(History) \<le> max\<close>, the test \<^verbatim>\<open>Len() >= *historyDuration\<close> holds, and
  \<^verbatim>\<open>Remove(Front())\<close> on the empty list panics, so nothing is appended.
\<close>

theorem updateStats_fifo_counterexample:
  "int (length (Stats (info (collector ''/a'')))) \<le> 0
   \<and> updateStats 0 (collector ''/a'') (sampleTick (11, None, 1)) = Panics"
  by (simp add: updateStats_def sampleTick_def RemoveFront_def collector_def)

text \<open>
  Claim C3, amended. Let the flag be at least 1 and the history hold at most that
  many samples. A tick on which the handler yields a sample \<open>a\<close> and a summary
  \<open>s\<close> at time \<open>n\<close> returns no error; the new history is the old one, without
  its front element if and only if the old one was at capacity, followed by the
  new sample stamped \<open>n\<close>; the summary is \<open>s\<close>; and the new history again holds
  at most as many samples as the flag says.
\<close>

theorem updateStats_fifo:
  assumes "1 \<le> d" "int (length (Stats (info c))) \<le> d"
  shows "updateStats d c (sampleTick (a, s, n)) =
      Returns (None, c\<lparr>info := (info c)
         \<lparr>Stats := (if int (length (Stats (info c))) = d then tl (Stats (info c)) else Stats (info c))
                     @ [\<lparr>Timestamp = n, Data = Some a\<rparr>],
          StatsSummary := s\<rparr>\<rparr>)
    \<and> int (length ((if int (length (Stats (info c))) = d then tl (Stats (info c)) else Stats (info c))
                     @ [\<lparr>Timestamp = n, Data = Some a\<rparr>])) \<le> d"
proof (cases "int (length (Stats (info c))) = d")
  case True
  with assms have ne: "Stats (info c) \<noteq> []" by auto
  from True ne show ?thesis
    using updateStats_sample_full [of d c a s n]
    by (simp add: sampleStat_def)
next
  case False
  with assms have lt: "int (length (Stats (info c))) < d" by simp
  then show ?thesis
    using updateStats_sample_room [of c d a s n]
    by (simp add: sampleStat_def)
qed

theorem updateStats_fifo_witness:
  "(1::int) \<le> 2 \<and> int (length (Stats (info fullCollector))) \<le> 2
   \<and> updateStats 2 fullCollector (sampleTick (13, None, 3)) =
       Returns (None, fullCollector\<lparr>info := (info fullCollector)
          \<lparr>Stats := [\<lparr>Timestamp = 2, Data = Some 12\<rparr>, \<lparr>Timestamp = 3, Data = Some 13\<rparr>],
           StatsSummary := None\<rparr>\<rparr>)
   \<and> updateStats 3 fullCollector (sampleTick (13, None, 3)) =
       Returns (None, fullCollector\<lparr>info := (info fullCollector)
          \<lparr>Stats := [\<lparr>Timestamp = 1, Data = Some 11\<rparr>, \<lparr>Timestamp = 2, Data = Some 12\<rparr>,
                     \<lparr>Timestamp = 3, Data = Some 13\<rparr>],
           StatsSummary := None\<rparr>\<rparr>)"
  using updateStats_fifo [of 2 fullCollector 13 None 3] updateStats_fifo [of 3 fullCollector 13 None 3]
  by (simp add: fullCollector_def)

subsection \<open>Many ticks\<close>

lemma housekeeping_step:
  assumes "updateStats d c t = Returns (e, c1)"
  shows "housekeeping d c (t # ts) = housekeeping d c1 ts"
  using assms by (simp add: housekeepingTick_def)

lemma housekeeping_samples:
  assumes "1 \<le> d"
  shows "int (length (Stats (info c))) \<le> d \<Longrightarrow>
    housekeeping d c (map sampleTick xs) =
      Returns (c\<lparr>info := (info c)
        \<lparr>Stats := drop (length (Stats (info c)) + length xs - nat d)
                        (Stats (info c) @ map sampleStat xs),
         StatsSummary := (if xs = [] then StatsSummary (info c) else fst (snd (last xs)))\<rparr>\<rparr>)"
proof (induction xs arbitrary: c)
  case Nil
  then show ?case by simp
next
  case (Cons x xs)
  obtain a s n where x: "x = (a, s, n)" by (cases x) auto
  let ?H = "Stats (info c)"
  show ?case
  proof (cases "int (length ?H) = d")
    case True
    with assms obtain h t where H: "?H = h # t" by (cases ?H) auto
    from True H have d: "nat d = Suc (length t)" by simp
    define c1 where "c1 = c\<lparr>info := (info c)\<lparr>Stats := tl ?H @ [sampleStat (a, s, n)], StatsSummary := s\<rparr>\<rparr>"
    have step: "updateStats d c (sampleTick (a, s, n)) = Returns (None, c1)"
      unfolding c1_def using True H by (intro updateStats_sample_full) simp_all
    have len1: "int (length (Stats (info c1))) \<le> d"
      using True H by (simp add: c1_def)
    have "housekeeping d c (map sampleTick (x # xs)) = housekeeping d c1 (map sampleTick xs)"
      using housekeeping_step [OF step] by (simp add: x)
    also have "\<dots> = Returns (c1\<lparr>info := (info c1)
        \<lparr>Stats := drop (length (Stats (info c1)) + length xs - nat d)
                        (Stats (info c1) @ map sampleStat xs),
         StatsSummary := (if xs = [] then StatsSummary (info c1) else fst (snd (last xs)))\<rparr>\<rparr>)"
      by (rule Cons.IH [OF len1])
    also have "\<dots> = Returns (c\<lparr>info := (info c)
        \<lparr>Stats := drop (length ?H + length (x # xs) - nat d) (?H @ map sampleStat (x # xs)),
         StatsSummary := (if x # xs = [] then StatsSummary (info c) else fst (snd (last (x # xs))))\<rparr>\<rparr>)"
      by (simp add: c1_def H d x)
    finally show ?thesis .
  next
    case False
    with Cons.prems have lt: "int (length ?H) < d" by simp
    then have d: "length ?H < nat d" by simp
    define c1 where "c1 = c\<lparr>info := (info c)\<lparr>Stats := ?H @ [sampleStat (a, s, n)], StatsSummary := s\<rparr>\<rparr>"
    have step: "updateStats d c (sampleTick (a, s, n)) = Returns (None, c1)"
      unfolding c1_def using lt by (rule updateStats_sample_room)
    have len1: "int (length (Stats (info c1))) \<le> d"
      using lt by (simp add: c1_def)
    have "housekeeping d c (map sampleTick (x # xs)) = housekeeping d c1 (map sampleTick xs)"
      using housekeeping_step [OF step] by (simp add: x)
    also have "\<dots> = Returns (c1\<lparr>info := (info c1)
        \<lparr>Stats := drop (length (Stats (info c1)) + length xs - nat d)
                        (Stats (info c1) @ map sampleStat xs),
         StatsSummary := (if xs = [] then StatsSummary (info c1) else fst (snd (last xs)))\<rparr>\<rparr>)"
      by (rule Cons.IH [OF len1])
    also have "\<dots> = Returns (c\<lparr>info := (info c)
        \<lparr>Stats := drop (length ?H + length (x # xs) - nat d) (?H @ map sampleStat (x # xs)),
         StatsSummary := (if x # xs = [] then StatsSummary (info c) else fst (snd (last (x # xs))))\<rparr>\<rparr>)"
      by (simp add: c1_def x)
    finally show ?thesis .
  qed
qed

text \<open>
  Claim C4, as stated, fails in two ways. When the flag is 0, the first tick
  that yields a sample panics from the empty history, so there is no history of
  length \<open>min(N, max)\<close> after it. And a tick whose \<^verbatim>\<open>GetStats\<close> returns a
  sample appends nothing when \<^verbatim>\<open>StatsSummary\<close> then fails: with the flag at
  3 and four ticks that each return a sample, the summary failing on ticks 1 and
  3, the history holds the samples of ticks 2 and 4 only.
\<close>

theorem housekeeping_bounded_history_counterexample:
  "Stats (info (collector ''/a'')) = []
   \<and> housekeeping 0 (collector ''/a'') (map sampleTick [(11, None, 1)]) = Panics
   \<and> housekeeping 3 (collector ''/a'')
        [\<lparr>tick_GetStats = Inr (Some 11), tick_StatsSummary = Inl (HandlerError ''busy''),
          tick_Now = 1\<rparr>,
         sampleTick (12, None, 2),
         \<lparr>tick_GetStats = Inr (Some 13), tick_StatsSummary = Inl (HandlerError ''busy''),
          tick_Now = 3\<rparr>,
         sampleTick (14, None, 4)] =
      Returns ((collector ''/a'')\<lparr>info := (info (collector ''/a''))
        \<lparr>Stats := [\<lparr>Timestamp = 2, Data = Some 12\<rparr>, \<lparr>Timestamp = 4, Data = Some 14\<rparr>],
         StatsSummary := None\<rparr>\<rparr>)"
  by (simp add: housekeepingTick_def updateStats_def sampleTick_def RemoveFront_def
        PushBack_def collector_def)

text \<open>
  Claim C4, amended. Let the flag be at least 1. From an empty history, after
  ticks on each of which the handler returns a sample and a summary without
  error, the history holds the most recent samples in the order of the ticks,
  oldest first: all of them while they are at most as many as the flag says, the
  last that many otherwise, so its length is the minimum of the number of ticks
  and the flag. The summary is that of the last tick. With the flag at 3 and four
  such ticks, the history is the samples of ticks 2, 3 and 4.
\<close>

theorem housekeeping_bounded_history:
  assumes "1 \<le> d" "Stats (info c) = []"
  shows "housekeeping d c (map sampleTick xs) =
      Returns (c\<lparr>info := (info c)
        \<lparr>Stats := drop (length xs - nat d) (map sampleStat xs),
         StatsSummary := (if xs = [] then StatsSummary (info c) else fst (snd (last xs)))\<rparr>\<rparr>)
    \<and> int (length (drop (length xs - nat d) (map sampleStat xs))) = min (int (length xs)) d"
  using assms housekeeping_samples [of d c xs] by auto

theorem housekeeping_bounded_history_witness:
  "(1::int) \<le> 3 \<and> Stats (info (collector ''/a'')) = []
   \<and> housekeeping 3 (collector ''/a'')
        (map sampleTick [(11, None, 1), (12, None, 2), (13, None, 3), (14, None, 4)]) =
      Returns ((collector ''/a'')\<lparr>info := (info (collector ''/a''))
        \<lparr>Stats := [\<lparr>Timestamp = 2, Data = Some 12\<rparr>, \<lparr>Timestamp = 3, Data = Some 13\<rparr>,
                   \<lparr>Timestamp = 4, Data = Some 14\<rparr>],
         StatsSummary := None\<rparr>\<rparr>)"
  using housekeeping_bounded_history [of 3 "collector ''/a''" "[(11, None, 1), (12, None, 2), (13, None, 3), (14, None, 4)]"]
  by (simp add: collector_def sampleStat_def)

section \<open>Queries\<close>

subsection \<open>\<^verbatim>\<open>GetInfo\<close>\<close>

lemma GetInfo_cases:
  "GetInfo c gs lc =
     (case gs of
        Inl err \<Rightarrow> (Inl err, c)
      | Inr spec \<Rightarrow>
          (case lc of
             Inl err \<Rightarrow> (Inl err, c\<lparr>info := (info c)\<lparr>Spec := spec\<rparr>\<rparr>)
           | Inr subs \<Rightarrow>
               (Inr ((info c)\<lparr>Spec := spec, Subcontainers := subs\<rparr>),
                c\<lparr>info := (info c)\<lparr>Spec := spec, Subcontainers := subs\<rparr>\<rparr>)))"
  by (simp add: GetInfo_def updateSpec_def updateSubcontainers_def split: sum.splits)

text \<open>
  Claim C10. A failing \<^verbatim>\<open>GetInfo\<close> does not preserve the collector: when the
  handler returns a spec and then fails to list the children, \<^verbatim>\<open>GetInfo\<close>
  returns that error, and the collector it leaves stores the spec just fetched in
  place of the one it had.
\<close>

theorem GetInfo_failure_keeps_new_spec:
  "GetInfo c (Inr spec) (Inl err) = (Inl err, c\<lparr>info := (info c)\<lparr>Spec := spec\<rparr>\<rparr>)"
  by (simp add: GetInfo_def updateSpec_def updateSubcontainers_def)

subsection \<open>\<^verbatim>\<open>GetContainerInfo\<close>\<close>

lemma GetContainerInfo_unknown:
  assumes "map_of (containers m) name = None"
  shows "GetContainerInfo m h name gs lc = Returns (Inl (UnknownContainer name), m, h)"
  using assms by (simp add: GetContainerInfo_def)

lemma GetContainerInfo_spec_fails:
  assumes "map_of (containers m) name = Some cont"
  shows "GetContainerInfo m h name (Inl err) lc = Returns (Inl err, m, h)"
  using assms by (simp add: GetContainerInfo_def GetInfo_cases update_triv)

lemma GetContainerInfo_list_fails:
  assumes "map_of (containers m) name = Some cont"
  shows "GetContainerInfo m h name (Inr spec) (Inl err) =
     Returns (Inl err,
       m\<lparr>containers := AList.update name (cont\<lparr>info := (info cont)\<lparr>Spec := spec\<rparr>\<rparr>) (containers m)\<rparr>, h)"
  using assms by (simp add: GetContainerInfo_def GetInfo_cases)

lemma GetContainerInfo_refreshed:
  assumes "map_of (containers m) name = Some cont"
  shows "GetContainerInfo m h name (Inr spec) (Inr subs) = Panics
       \<or> (\<exists>snap m' h'. GetContainerInfo m h name (Inr spec) (Inr subs) = Returns (Inr snap, m', h'))"
  using assms
  by (cases spec) (simp_all add: GetContainerInfo_def GetInfo_cases Let_def)

text \<open>
  Claim C9. \<^verbatim>\<open>GetContainerInfo\<close> returns the unknown-container error for a name
  that is not tracked, with the manager and the heap untouched. For a tracked
  name it returns the handler's error when the spec refresh fails, and the
  handler's error when the spec refresh succeeds and the listing of the children
  fails. It returns an error exactly when the name is not tracked or one of the
  two refreshes fails, and it returns a snapshot only when the name is tracked and
  both refreshes succeed.
\<close>

theorem GetContainerInfo_errors:
  "(map_of (containers m) name = None \<longrightarrow>
      GetContainerInfo m h name gs lc = Returns (Inl (UnknownContainer name), m, h))
 \<and> (map_of (containers m) name \<noteq> None \<longrightarrow>
      GetContainerInfo m h name (Inl err) lc = Returns (Inl err, m, h))
 \<and> (map_of (containers m) name \<noteq> None \<longrightarrow>
      (\<exists>m'. GetContainerInfo m h name (Inr spec) (Inl err) = Returns (Inl err, m', h)))
 \<and> ((\<exists>e m' h'. GetContainerInfo m h name gs lc = Returns (Inl e, m', h'))
      \<longleftrightarrow> (map_of (containers m) name = None \<or> isl gs \<or> isl lc))
 \<and> (\<forall>snap m' h'. GetContainerInfo m h name gs lc = Returns (Inr snap, m', h')
      \<longrightarrow> map_of (containers m) name \<noteq> None \<and> \<not> isl gs \<and> \<not> isl lc)"
proof -
  have unknown: "map_of (containers m) name = None \<Longrightarrow>
      GetContainerInfo m h name gs lc = Returns (Inl (UnknownContainer name), m, h)" for gs lc
    by (rule GetContainerInfo_unknown)
  have spec_fails: "map_of (containers m) name \<noteq> None \<Longrightarrow>
      GetContainerInfo m h name (Inl err) lc = Returns (Inl err, m, h)" for err lc
    using GetContainerInfo_spec_fails by fastforce
  have list_fails: "map_of (containers m) name \<noteq> None \<Longrightarrow>
      \<exists>m'. GetContainerInfo m h name (Inr spec) (Inl err) = Returns (Inl err, m', h)" for spec err
    using GetContainerInfo_list_fails by fastforce
  have refreshed: "map_of (containers m) name \<noteq> None \<Longrightarrow>
      GetContainerInfo m h name (Inr spec) (Inr subs) = Panics
       \<or> (\<exists>snap m' h'. GetContainerInfo m h name (Inr spec) (Inr subs) = Returns (Inr snap, m', h'))"
    for spec subs
    using GetContainerInfo_refreshed by fastforce
  have iff: "(\<exists>e m' h'. GetContainerInfo m h name gs lc = Returns (Inl e, m', h'))
      \<longleftrightarrow> (map_of (containers m) name = None \<or> isl gs \<or> isl lc)"
  proof (cases "map_of (containers m) name = None")
    case True
    then show ?thesis using unknown by simp
  next
    case False
    show ?thesis
    proof (cases gs)
      case (Inl e)
      then show ?thesis using spec_fails [OF False] by simp
    next
      case gs: (Inr spec)
      show ?thesis
      proof (cases lc)
        case (Inl e)
        then show ?thesis using list_fails [OF False, of spec e] gs by auto
      next
        case (Inr subs)
        then show ?thesis using refreshed [OF False, of spec subs] gs False by auto
      qed
    qed
  qed
  have only: "\<forall>snap m' h'. GetContainerInfo m h name gs lc = Returns (Inr snap, m', h')
      \<longrightarrow> map_of (containers m) name \<noteq> None \<and> \<not> isl gs \<and> \<not> isl lc"
  proof (intro allI impI)
    fix snap m' h'
    assume r: "GetContainerInfo m h name gs lc = Returns (Inr snap, m', h')"
    have t: "map_of (containers m) name \<noteq> None"
      using r unknown by fastforce
    have "\<not> isl gs"
      using r spec_fails [OF t] by (cases gs) auto
    moreover have "\<not> isl lc"
    proof (cases gs)
      case (Inl e)
      then show ?thesis using r spec_fails [OF t] by auto
    next
      case gs: (Inr spec)
      show ?thesis
      proof (cases lc)
        case (Inl e)
        from list_fails [OF t, of spec e] obtain m2
          where "GetContainerInfo m h name (Inr spec) (Inl e) = Returns (Inl e, m2, h)" by blast
        with r gs Inl show ?thesis by simp
      next
        case (Inr subs)
        then show ?thesis by simp
      qed
    qed
    ultimately show "map_of (containers m) name \<noteq> None \<and> \<not> isl gs \<and> \<not> isl lc"
      using t by simp
  qed
  from unknown spec_fails list_fails iff only show ?thesis by blast
qed

theorem GetContainerInfo_errors_witness:
  "map_of (containers registry) ''/missing'' = None
   \<and> GetContainerInfo registry unsetHeap ''/missing'' (Inr (Some 0)) (Inr [])
        = Returns (Inl (UnknownContainer ''/missing''), registry, unsetHeap)
   \<and> map_of (containers registry) ''/a'' \<noteq> None
   \<and> GetContainerInfo registry unsetHeap ''/a'' (Inl (HandlerError ''gone'')) (Inr [])
        = Returns (Inl (HandlerError ''gone''), registry, unsetHeap)
   \<and> (\<exists>m'. GetContainerInfo registry unsetHeap ''/a'' (Inr (Some 0)) (Inl (HandlerError ''gone''))
        = Returns (Inl (HandlerError ''gone''), m', unsetHeap))
   \<and> (\<exists>snap m' h'. GetContainerInfo registry unsetHeap ''/a'' (Inr (Some 0)) (Inr [])
        = Returns (Inr snap, m', h'))
   \<and> \<not> isl (Inr (Some 0) :: error + ptr) \<and> \<not> isl (Inr [] :: error + string list)
   \<and> \<not> (\<exists>e m' h'. GetContainerInfo registry unsetHeap ''/a'' (Inr (Some 0)) (Inr [])
        = Returns (Inl e, m', h'))"
proof -
  have missing: "map_of (containers registry) ''/missing'' = None"
    by (simp add: registry_def)
  have tracked: "map_of (containers registry) ''/a'' \<noteq> None"
    by (simp add: registry_def)
  have snap: "\<exists>snap m' h'. GetContainerInfo registry unsetHeap ''/a'' (Inr (Some 0)) (Inr [])
        = Returns (Inr snap, m', h')"
    by (simp add: GetContainerInfo_def GetInfo_def updateSpec_def updateSubcontainers_def
          registry_def collector_def unsetHeap_def Let_def)
  show ?thesis
    using GetContainerInfo_errors [where m = registry and h = unsetHeap and name = "''/missing''"
        and gs = "Inr (Some 0)" and lc = "Inr []"]
      GetContainerInfo_errors [where m = registry and h = unsetHeap and name = "''/a''"
        and gs = "Inr (Some 0)" and lc = "Inr []" and err = "HandlerError ''gone''"
        and spec = "Some 0"]
      missing tracked snap
    by simp
qed

text \<open>
  Claim C2. For a tracked container whose handler returns a spec with a memory
  spec, \<^verbatim>\<open>GetContainerInfo\<close> returns a snapshot that points to that spec, and
  the limit read through the snapshot is the machine's memory capacity when the
  limit of the spec was 0, and the limit of the spec unchanged when it was
  positive.
\<close>

theorem GetContainerInfo_memory_limit:
  assumes "map_of (containers m) name = Some cont" "Memory h spec = Some memory"
  shows "\<exists>snap m' h'.
      GetContainerInfo m h name (Inr (Some spec)) (Inr subs) = Returns (Inr snap, m', h')
    \<and> info_Spec snap = Some spec
    \<and> Memory h' spec = Some memory
    \<and> (Limit h memory = 0 \<longrightarrow> Limit h' memory = MemoryCapacity (machineInfo m))
    \<and> (0 < Limit h memory \<longrightarrow> Limit h' memory = Limit h memory)"
  using assms
  by (simp add: GetContainerInfo_def GetInfo_cases Let_def)

theorem GetContainerInfo_memory_limit_witness:
  "map_of (containers registry) ''/a'' = Some (collector ''/a'')
   \<and> Memory unsetHeap 0 = Some 1 \<and> Limit unsetHeap 1 = 0
   \<and> (\<exists>snap m' h'.
        GetContainerInfo registry unsetHeap ''/a'' (Inr (Some 0)) (Inr []) = Returns (Inr snap, m', h')
        \<and> info_Spec snap = Some 0 \<and> Memory h' 0 = Some 1 \<and> Limit h' 1 = 1024)
   \<and> Memory limitedHeap 0 = Some 1 \<and> Limit limitedHeap 1 = 512
   \<and> (\<exists>snap m' h'.
        GetContainerInfo registry limitedHeap ''/a'' (Inr (Some 0)) (Inr []) = Returns (Inr snap, m', h')
        \<and> info_Spec snap = Some 0 \<and> Memory h' 0 = Some 1 \<and> Limit h' 1 = 512)"
proof -
  have t: "map_of (containers registry) ''/a'' = Some (collector ''/a'')"
    by (simp add: registry_def)
  have u: "Memory unsetHeap 0 = Some 1" "Limit unsetHeap 1 = 0"
    by (simp_all add: unsetHeap_def)
  have l: "Memory limitedHeap 0 = Some 1" "Limit limitedHeap 1 = 512"
    by (simp_all add: limitedHeap_def)
  have c: "MemoryCapacity (machineInfo registry) = 1024"
    by (simp add: registry_def)
  show ?thesis
    using GetContainerInfo_memory_limit [OF t u(1), of "[]"] GetContainerInfo_memory_limit [OF t l(1), of "[]"] t u l c
    by simp
qed

text \<open>
  Claim C1 does not hold of the code. The copy that \<^verbatim>\<open>GetInfo\<close> makes "for the
  user" is a copy of the struct, so the snapshot's \<^verbatim>\<open>Spec\<close> is the pointer that
  the collector stores, and writing the default limit through it writes the
  object that the collector's spec points to. Here the registry tracks
  \<^verbatim>\<open>/a\<close>, the handler returns the spec at address 0, whose memory spec at
  address 1 has the limit 0, and the machine has 1024 bytes: after the query the
  collector stores the pointer to address 0, the snapshot holds the same pointer,
  and the limit at address 1 is 1024.
\<close>

theorem GetContainerInfo_writes_shared_spec:
  "GetContainerInfo registry unsetHeap ''/a'' (Inr (Some 0)) (Inr []) =
     Returns (Inr \<lparr>info_Name = ''/a'', info_Subcontainers = [], info_Spec = Some 0,
                   info_Stats = [], info_StatsSummary = None\<rparr>,
              registry\<lparr>containers :=
                [(''/'', collector ''/''),
                 (''/a'', (collector ''/a'')\<lparr>info := (info (collector ''/a''))\<lparr>Spec := Some 0\<rparr>\<rparr>)]\<rparr>,
              unsetHeap\<lparr>Limit := (Limit unsetHeap)(1 := 1024)\<rparr>)
   \<and> Memory unsetHeap 0 = Some 1
   \<and> Limit unsetHeap 1 = 0
   \<and> Limit (unsetHeap\<lparr>Limit := (Limit unsetHeap)(1 := 1024)\<rparr>) 1 = 1024"
  by (simp add: GetContainerInfo_def GetInfo_def updateSpec_def updateSubcontainers_def
        registry_def collector_def unsetHeap_def Let_def)

section \<open>Reconciliation\<close>

subsection \<open>The diff\<close>

lemma diffLoop_eq:
  "diffLoop cs names (added, s) =
     (added @ filter (\<lambda>n. map_of cs n = None) names,
      filter (\<lambda>p. fst p \<notin> set names) s)"
proof (induction names arbitrary: added s)
  case Nil
  then show ?case by simp
next
  case (Cons n names)
  have "filter (\<lambda>p. fst p \<notin> set names) (AList.delete n s)
      = filter (\<lambda>p. fst p \<notin> set (n # names)) s"
    by (induction s) (auto simp: AList.delete_eq)
  with Cons show ?case by simp
qed

lemma fold_update_keys:
  "fst ` set (fold (\<lambda>name. AList.update name ()) ks s) = set ks \<union> fst ` set s"
  by (induction ks arbitrary: s) (auto simp: dom_update)

lemma map_of_None_iff: "map_of cs n = None \<longleftrightarrow> n \<notin> fst ` set cs"
  by (simp add: map_of_eq_None_iff)

lemma getContainersDiff_eq:
  assumes "map_of (containers m) ''/'' \<noteq> None"
  shows "getContainersDiff m (Inr L) = Inr (diffAdded (containers m) L, diffRemoved (containers m) L)"
proof -
  from assms obtain cont where "map_of (containers m) ''/'' = Some cont" by blast
  then show ?thesis
    unfolding getContainersDiff_def diffAdded_def diffRemoved_def Let_def diffLoop_eq
    by simp
qed

lemma set_diffAdded: "set (diffAdded cs L) = (set L \<union> {''/''}) - fst ` set cs"
  unfolding diffAdded_def map_of_None_iff by auto

lemma set_diffRemoved: "set (diffRemoved cs L) = fst ` set cs - (set L \<union> {''/''})"
proof -
  have "set (diffRemoved cs L)
      = {k \<in> fst ` set (fold (\<lambda>name. AList.update name ()) (map fst cs) []). k \<notin> set (L @ [''/''])}"
    unfolding diffRemoved_def by force
  also have "\<dots> = fst ` set cs - (set L \<union> {''/''})"
    unfolding fold_update_keys by auto
  finally show ?thesis .
qed

lemma getContainersDiff_root:
  assumes "getContainersDiff m lc = Inr (added, removed)"
  shows "map_of (containers m) ''/'' \<noteq> None"
  using assms by (cases "map_of (containers m) ''/''") (simp_all add: getContainersDiff_def)

text \<open>
  Claim C6. When the root is tracked and the recursive listing of the root's
  handler succeeds with the names \<open>L\<close>, \<^verbatim>\<open>getContainersDiff\<close> returns two
  lists: \<^verbatim>\<open>added\<close> holds, as a set, the names of \<open>L\<close> and the root that are not
  tracked, and \<^verbatim>\<open>removed\<close> the tracked names that are neither in \<open>L\<close> nor the
  root.
\<close>

theorem getContainersDiff_correct:
  assumes "map_of (containers m) ''/'' \<noteq> None"
  shows "\<exists>added removed.
     getContainersDiff m (Inr L) = Inr (added, removed)
   \<and> set added = (set L \<union> {''/''}) - fst ` set (containers m)
   \<and> set removed = fst ` set (containers m) - (set L \<union> {''/''})"
  using getContainersDiff_eq [OF assms, of L] set_diffAdded [of "containers m" L]
    set_diffRemoved [of "containers m" L]
  by blast

theorem getContainersDiff_correct_witness:
  "map_of (containers registry) ''/'' \<noteq> None
   \<and> (\<exists>added removed.
        getContainersDiff registry (Inr [''/b'']) = Inr (added, removed)
        \<and> set added = {''/b''} \<and> set removed = {''/a''})"
proof -
  have r: "map_of (containers registry) ''/'' \<noteq> None"
    by (simp add: registry_def)
  have a: "(set [''/b''] \<union> {''/''}) - fst ` set (containers registry) = {''/b''}"
    by (auto simp: registry_def)
  have b: "fst ` set (containers registry) - (set [''/b''] \<union> {''/''}) = {''/a''}"
    by (auto simp: registry_def)
  show ?thesis
    using getContainersDiff_correct [OF r, of "[''/b'']"] r unfolding a b by simp
qed

subsection \<open>Creating and destroying\<close>

lemma createContainer_cases:
  assumes "createContainer d m name r = Returns (res, m')"
  shows "(\<exists>err. res = Inl err \<and> create_NewContainerHandler r = Inl err \<and> m' = m)
       \<or> (\<exists>cont. res = Inr cont \<and> fst ` set (containers m') = insert name (fst ` set (containers m))
              \<and> machineInfo m' = machineInfo m)"
proof (cases "create_NewContainerHandler r")
  case (Inl err)
  with assms show ?thesis by (simp add: createContainer_def NewContainerData_def)
next
  case (Inr h)
  with assms obtain cont
    where "res = Inr cont" "m' = m\<lparr>containers := AList.update name cont (containers m)\<rparr>"
    by (auto simp: createContainer_def NewContainerData_def Start_def Let_def
             split: outcome.splits)
  then show ?thesis by (simp add: dom_update)
qed

lemma createContainer_fails:
  assumes "create_NewContainerHandler r = Inl err"
  shows "createContainer d m name r = Returns (Inl err, m)"
  using assms by (simp add: createContainer_def NewContainerData_def)

lemma createLoop_keys:
  assumes "createLoop d m names creates k = Returns (None, m')"
  shows "fst ` set (containers m') = fst ` set (containers m) \<union> set names"
  using assms
proof (induction names arbitrary: m k)
  case Nil
  then show ?case by simp
next
  case (Cons n names)
  from Cons.prems obtain cont m1
    where c: "createContainer d m n (creates k) = Returns (Inr cont, m1)"
      and l: "createLoop d m1 names creates (Suc k) = Returns (None, m')"
    by (auto split: outcome.splits sum.splits)
  from createContainer_cases [OF c]
  have "fst ` set (containers m1) = insert n (fst ` set (containers m))" by auto
  with Cons.IH [OF l] show ?case by auto
qed

lemma destroyContainer_cases:
  "destroyContainer m name =
     (if map_of (containers m) name = None then (Some (ExpectedToExist name), m)
      else (None, m\<lparr>containers := AList.delete name (containers m)\<rparr>))"
  by (auto simp: destroyContainer_def Stop_def split: option.splits)

lemma keys_delete: "fst ` set (AList.delete k al) = fst ` set al - {k}"
  by (induction al) (auto simp: AList.delete_eq)

lemma destroyLoop_keys:
  assumes "destroyLoop m names = (None, m')"
  shows "fst ` set (containers m') = fst ` set (containers m) - set names"
  using assms
proof (induction names arbitrary: m)
  case Nil
  then show ?case by simp
next
  case (Cons n names)
  from Cons.prems
  have l: "destroyLoop (m\<lparr>containers := AList.delete n (containers m)\<rparr>) names = (None, m')"
    by (auto simp: destroyContainer_cases split: if_splits)
  from Cons.IH [OF l] show ?case by (auto simp: keys_delete)
qed

lemma detectContainers_parts:
  assumes "detectContainers d m lc creates = Returns (None, m')"
  shows "\<exists>added removed m1.
           getContainersDiff m lc = Inr (added, removed)
         \<and> createLoop d m added creates 0 = Returns (None, m1)
         \<and> destroyLoop m1 removed = (None, m')"
  using assms
  by (auto simp: detectContainers_def split: sum.splits outcome.splits option.splits prod.splits)

lemma diffAdded_Nil:
  assumes "set L \<union> {''/''} \<subseteq> fst ` set cs"
  shows "diffAdded cs L = []"
  using assms unfolding diffAdded_def map_of_None_iff
  by (auto simp: filter_empty_conv)

lemma diffRemoved_Nil:
  assumes "fst ` set cs \<subseteq> set L \<union> {''/''}"
  shows "diffRemoved cs L = []"
proof -
  have "set (diffRemoved cs L) = {}"
    using assms unfolding set_diffRemoved by auto
  then show ?thesis by simp
qed

lemma createLoop_append:
  assumes "createLoop d m as creates k = Returns (None, m1)"
  shows "createLoop d m (as @ bs) creates k = createLoop d m1 bs creates (k + length as)"
  using assms
proof (induction as arbitrary: m k)
  case Nil
  then show ?case by simp
next
  case (Cons a as)
  from Cons.prems obtain cont m0
    where c: "createContainer d m a (creates k) = Returns (Inr cont, m0)"
      and l: "createLoop d m0 as creates (Suc k) = Returns (None, m1)"
    by (auto split: outcome.splits sum.splits)
  from Cons.IH [OF l] c show ?case by simp
qed

lemma destroyLoop_append:
  assumes "destroyLoop m as = (None, m1)"
  shows "destroyLoop m (as @ bs) = destroyLoop m1 bs"
  using assms
proof (induction as arbitrary: m)
  case Nil
  then show ?case by simp
next
  case (Cons a as)
  from Cons.prems obtain m0
    where c: "destroyContainer m a = (None, m0)"
      and l: "destroyLoop m0 as = (None, m1)"
    by (auto split: prod.splits option.splits)
  from Cons.IH [OF l] c show ?case by simp
qed

lemma createLoop_stops:
  assumes k: "k < length added"
    and pre: "createLoop d m (take k added) creates 0 = Returns (None, mk)"
    and fail: "createContainer d mk (added ! k) (creates k) = Returns (Inl err, mk')"
  shows "createLoop d m added creates 0 = Returns (Some (FailedToCreate (added ! k) err), mk')"
proof -
  have "added = take k added @ (added ! k # drop (Suc k) added)"
    using k by (simp add: id_take_nth_drop [symmetric])
  then have "createLoop d m added creates 0
      = createLoop d m (take k added @ (added ! k # drop (Suc k) added)) creates 0"
    by simp
  also have "\<dots> = createLoop d mk (added ! k # drop (Suc k) added) creates (0 + length (take k added))"
    using pre by (rule createLoop_append)
  also have "\<dots> = Returns (Some (FailedToCreate (added ! k) err), mk')"
    using k fail by (simp add: min_absorb2)
  finally show ?thesis .
qed

lemma destroyLoop_stops:
  assumes j: "j < length names"
    and pre: "destroyLoop m (take j names) = (None, mj)"
    and fail: "destroyContainer mj (names ! j) = (Some err, mj')"
  shows "destroyLoop m names = (Some (FailedToDestroy (names ! j) err), mj')"
proof -
  have "names = take j names @ (names ! j # drop (Suc j) names)"
    using j by (simp add: id_take_nth_drop [symmetric])
  then have "destroyLoop m names = destroyLoop m (take j names @ (names ! j # drop (Suc j) names))"
    by simp
  also have "\<dots> = destroyLoop mj (names ! j # drop (Suc j) names)"
    using pre by (rule destroyLoop_append)
  also have "\<dots> = (Some (FailedToDestroy (names ! j) err), mj')"
    using fail by simp
  finally show ?thesis .
qed

lemma destroyContainer_fails:
  assumes "destroyContainer m name = (Some err, m')"
  shows "m' = m \<and> err = ExpectedToExist name \<and> map_of (containers m) name = None"
  using assms by (auto simp: destroyContainer_cases split: if_splits)

lemma keys_fold_update_distinct:
  "distinct (map fst s) \<Longrightarrow> distinct (map fst (fold (\<lambda>name. AList.update name ()) ks s))"
  by (induction ks arbitrary: s) (simp_all add: distinct_update)

lemma distinct_diffRemoved: "distinct (diffRemoved cs L)"
proof -
  have "distinct (map fst (fold (\<lambda>name. AList.update name ()) (map fst cs) ([] :: (string \<times> unit) list)))"
    by (rule keys_fold_update_distinct) simp
  then show ?thesis
    unfolding diffRemoved_def by (simp add: distinct_map_filter)
qed

lemma destroyLoop_succeeds:
  assumes "distinct names" "set names \<subseteq> fst ` set (containers m)"
  shows "fst (destroyLoop m names) = None"
  using assms
proof (induction names arbitrary: m)
  case Nil
  then show ?case by simp
next
  case (Cons n names)
  from Cons.prems have t: "map_of (containers m) n \<noteq> None"
    unfolding map_of_None_iff by simp
  have "set names \<subseteq> fst ` set (containers (m\<lparr>containers := AList.delete n (containers m)\<rparr>))"
    using Cons.prems by (auto simp: keys_delete)
  with Cons.IH [of "m\<lparr>containers := AList.delete n (containers m)\<rparr>"] Cons.prems t
  show ?case by (simp add: destroyContainer_cases)
qed

lemma detectContainers_destroys_succeed:
  assumes diff: "getContainersDiff m (Inr L) = Inr (added, removed)"
    and cr: "createLoop d m added creates 0 = Returns (None, m1)"
  shows "\<exists>m'. detectContainers d m (Inr L) creates = Returns (None, m')"
proof -
  have root: "map_of (containers m) ''/'' \<noteq> None"
    using diff by (rule getContainersDiff_root)
  from diff getContainersDiff_eq [OF root, of L]
  have r: "removed = diffRemoved (containers m) L" by simp
  have "set removed \<subseteq> fst ` set (containers m1)"
    using createLoop_keys [OF cr] unfolding r set_diffRemoved by auto
  then have "fst (destroyLoop m1 removed) = None"
    using distinct_diffRemoved [of "containers m" L] unfolding r by (intro destroyLoop_succeeds)
  then obtain m' where "destroyLoop m1 removed = (None, m')"
    by (cases "destroyLoop m1 removed") simp
  with diff cr show ?thesis by (simp add: detectContainers_def)
qed

subsection \<open>A pass\<close>

text \<open>
  Claim C7. When a pass of \<^verbatim>\<open>detectContainers\<close> over the listing \<open>L\<close> returns
  no error, the names it leaves tracked are those of \<open>L\<close> and the root; a diff
  taken then over the same listing finds nothing added and nothing removed, and a
  second pass over it returns no error and leaves the manager as it is.
\<close>

theorem detectContainers_idempotent:
  assumes "detectContainers d m (Inr L) creates = Returns (None, m')"
  shows "fst ` set (containers m') = set L \<union> {''/''}
       \<and> getContainersDiff m' (Inr L) = Inr ([], [])
       \<and> detectContainers d m' (Inr L) creates' = Returns (None, m')"
proof -
  from detectContainers_parts [OF assms] obtain added removed m1
    where diff: "getContainersDiff m (Inr L) = Inr (added, removed)"
      and cr: "createLoop d m added creates 0 = Returns (None, m1)"
      and de: "destroyLoop m1 removed = (None, m')"
    by blast
  have root: "map_of (containers m) ''/'' \<noteq> None"
    using diff by (rule getContainersDiff_root)
  from diff getContainersDiff_eq [OF root, of L]
  have ar: "added = diffAdded (containers m) L" "removed = diffRemoved (containers m) L"
    by simp_all
  have keys: "fst ` set (containers m') = set L \<union> {''/''}"
    using createLoop_keys [OF cr] destroyLoop_keys [OF de]
    unfolding ar set_diffAdded set_diffRemoved by auto
  then have root': "map_of (containers m') ''/'' \<noteq> None"
    unfolding map_of_None_iff by simp
  have diff': "getContainersDiff m' (Inr L) = Inr ([], [])"
    using getContainersDiff_eq [OF root', of L] keys
    by (simp add: diffAdded_Nil diffRemoved_Nil)
  have "detectContainers d m' (Inr L) creates' = Returns (None, m')"
    by (simp add: detectContainers_def diff')
  with keys diff' show ?thesis by simp
qed

theorem detectContainers_idempotent_witness:
  "detectContainers 60 registry (Inr [''/b'']) answering = Returns (None, reconciled)
   \<and> fst ` set (containers reconciled) = set [''/b''] \<union> {''/''}
   \<and> getContainersDiff reconciled (Inr [''/b'']) = Inr ([], [])
   \<and> detectContainers 60 reconciled (Inr [''/b'']) answering = Returns (None, reconciled)"
proof -
  have p: "detectContainers 60 registry (Inr [''/b'']) answering = Returns (None, reconciled)"
    by (simp add: detectContainers_def getContainersDiff_def createContainer_def
        NewContainerData_def Start_def housekeepingTick_def updateStats_def sampleTick_def
        PushBack_def destroyContainer_def Stop_def registry_def reconciled_def
        answering_def collector_def started_def Let_def)
  show ?thesis
    using detectContainers_idempotent [OF p, of answering] p by simp
qed

text \<open>
  Claim C8. A pass is not atomic. When the creations before position \<open>k\<close> of
  \<^verbatim>\<open>added\<close> succeed and leave the manager \<open>mk\<close>, and the creation at \<open>k\<close>
  fails, the failed creation changes nothing and the pass returns the error of
  that creation, wrapped, with the manager \<open>mk\<close>: what was created stays, and
  nothing is created or destroyed after it. When every creation succeeds, the
  pass returns what the loop of destructions returns. In that loop, when the
  destructions before position \<open>j\<close> succeed and leave \<open>mj\<close>, and the destruction
  at \<open>j\<close> fails, the failed destruction changes nothing and the loop returns its
  error, wrapped, with the manager \<open>mj\<close>.
\<close>

theorem detectContainers_not_atomic:
  "(getContainersDiff m lc = Inr (added, removed) \<and> k < length added
      \<and> createLoop d m (take k added) creates 0 = Returns (None, mk)
      \<and> createContainer d mk (added ! k) (creates k) = Returns (Inl err, mk')
    \<longrightarrow> mk' = mk
      \<and> detectContainers d m lc creates = Returns (Some (FailedToCreate (added ! k) err), mk))
 \<and> (getContainersDiff m lc = Inr (added, removed)
      \<and> createLoop d m added creates 0 = Returns (None, m1)
    \<longrightarrow> detectContainers d m lc creates = Returns (destroyLoop m1 removed))
 \<and> (j < length names \<and> destroyLoop m2 (take j names) = (None, mj)
      \<and> destroyContainer mj (names ! j) = (Some err', mj')
    \<longrightarrow> mj' = mj
      \<and> destroyLoop m2 names = (Some (FailedToDestroy (names ! j) err'), mj))"
proof (intro conjI impI)
  assume a: "getContainersDiff m lc = Inr (added, removed) \<and> k < length added
      \<and> createLoop d m (take k added) creates 0 = Returns (None, mk)
      \<and> createContainer d mk (added ! k) (creates k) = Returns (Inl err, mk')"
  from a createContainer_cases [of d mk "added ! k" "creates k" "Inl err" mk']
  show eq: "mk' = mk" by auto
  from a have k: "k < length added"
    and pre: "createLoop d m (take k added) creates 0 = Returns (None, mk)"
    and fail: "createContainer d mk (added ! k) (creates k) = Returns (Inl err, mk')"
    by simp_all
  have "createLoop d m added creates 0 = Returns (Some (FailedToCreate (added ! k) err), mk')"
    using k pre fail by (rule createLoop_stops)
  with a eq show "detectContainers d m lc creates = Returns (Some (FailedToCreate (added ! k) err), mk)"
    by (simp add: detectContainers_def)
next
  assume "getContainersDiff m lc = Inr (added, removed)
      \<and> createLoop d m added creates 0 = Returns (None, m1)"
  then show "detectContainers d m lc creates = Returns (destroyLoop m1 removed)"
    by (simp add: detectContainers_def)
next
  assume a: "j < length names \<and> destroyLoop m2 (take j names) = (None, mj)
      \<and> destroyContainer mj (names ! j) = (Some err', mj')"
  then show eq: "mj' = mj" using destroyContainer_fails by blast
  from a have j: "j < length names"
    and pre: "destroyLoop m2 (take j names) = (None, mj)"
    and fail: "destroyContainer mj (names ! j) = (Some err', mj')"
    by simp_all
  have "destroyLoop m2 names = (Some (FailedToDestroy (names ! j) err'), mj')"
    using j pre fail by (rule destroyLoop_stops)
  with eq show "destroyLoop m2 names = (Some (FailedToDestroy (names ! j) err'), mj)" by simp
qed

theorem detectContainers_not_atomic_witness:
  "getContainersDiff registry (Inr [''/b'', ''/c'']) = Inr ([''/b'', ''/c''], [''/a''])
   \<and> (1::nat) < length [''/b'', ''/c'']
   \<and> createLoop 60 registry (take 1 [''/b'', ''/c'']) failingSecond 0 = Returns (None, withB)
   \<and> createContainer 60 withB ([''/b'', ''/c''] ! 1) (failingSecond 1)
        = Returns (Inl (HandlerError ''gone''), withB)
   \<and> detectContainers 60 registry (Inr [''/b'', ''/c'']) failingSecond
        = Returns (Some (FailedToCreate ''/c'' (HandlerError ''gone'')), withB)
   \<and> createLoop 60 registry [''/b'', ''/c''] answering 0 \<noteq> Panics
   \<and> detectContainers 60 registry (Inr [''/b'', ''/c'']) answering
        = Returns (destroyLoop
            (registry\<lparr>containers := containers withB @ [(''/c'', started ''/c'')]\<rparr>) [''/a''])
   \<and> (1::nat) < length [''/a'', ''/a'']
   \<and> destroyLoop registry (take 1 [''/a'', ''/a'']) = (None, afterA)
   \<and> destroyContainer afterA ([''/a'', ''/a''] ! 1) = (Some (ExpectedToExist ''/a''), afterA)
   \<and> destroyLoop registry [''/a'', ''/a'']
        = (Some (FailedToDestroy ''/a'' (ExpectedToExist ''/a'')), afterA)"
proof -
  have diff: "getContainersDiff registry (Inr [''/b'', ''/c'']) = Inr ([''/b'', ''/c''], [''/a''])"
    by (simp add: getContainersDiff_def registry_def Let_def)
  have pre: "createLoop 60 registry (take 1 [''/b'', ''/c'']) failingSecond 0 = Returns (None, withB)"
    by (simp add: createContainer_def NewContainerData_def Start_def housekeepingTick_def
          updateStats_def sampleTick_def PushBack_def registry_def withB_def failingSecond_def
          collector_def started_def Let_def)
  have fail: "createContainer 60 withB ([''/b'', ''/c''] ! 1) (failingSecond 1)
        = Returns (Inl (HandlerError ''gone''), withB)"
    by (simp add: createContainer_def NewContainerData_def failingSecond_def)
  have all: "createLoop 60 registry [''/b'', ''/c''] answering 0
        = Returns (None, registry\<lparr>containers := containers withB @ [(''/c'', started ''/c'')]\<rparr>)"
    by (simp add: createContainer_def NewContainerData_def Start_def housekeepingTick_def
          updateStats_def sampleTick_def PushBack_def registry_def withB_def answering_def
          collector_def started_def Let_def)
  have dpre: "destroyLoop registry (take 1 [''/a'', ''/a'']) = (None, afterA)"
    by (simp add: destroyContainer_def Stop_def registry_def afterA_def)
  have dfail: "destroyContainer afterA ([''/a'', ''/a''] ! 1) = (Some (ExpectedToExist ''/a''), afterA)"
    by (simp add: destroyContainer_def afterA_def)
  have k: "(1::nat) < length [''/b'', ''/c'']" by simp
  have j: "(1::nat) < length [''/a'', ''/a'']" by simp
  have c1: "detectContainers 60 registry (Inr [''/b'', ''/c'']) failingSecond
        = Returns (Some (FailedToCreate ([''/b'', ''/c''] ! 1) (HandlerError ''gone'')), withB)"
    using detectContainers_not_atomic [where m = registry and lc = "Inr [''/b'', ''/c'']" and added = "[''/b'', ''/c'']"
        and removed = "[''/a'']" and k = 1 and d = 60 and creates = failingSecond and mk = withB
        and err = "HandlerError ''gone''" and mk' = withB, THEN conjunct1]
      diff k pre fail
    by blast
  have c2: "detectContainers 60 registry (Inr [''/b'', ''/c'']) answering
        = Returns (destroyLoop
            (registry\<lparr>containers := containers withB @ [(''/c'', started ''/c'')]\<rparr>) [''/a''])"
    using detectContainers_not_atomic [where m = registry and lc = "Inr [''/b'', ''/c'']" and added = "[''/b'', ''/c'']"
        and removed = "[''/a'']" and d = 60 and creates = answering
        and ?m1.0 = "registry\<lparr>containers := containers withB @ [(''/c'', started ''/c'')]\<rparr>",
        THEN conjunct2, THEN conjunct1]
      diff all
    by blast
  have c3: "destroyLoop registry [''/a'', ''/a'']
        = (Some (FailedToDestroy ([''/a'', ''/a''] ! 1) (ExpectedToExist ''/a'')), afterA)"
    using detectContainers_not_atomic [where j = 1 and names = "[''/a'', ''/a'']" and ?m2.0 = registry and mj = afterA
        and err' = "ExpectedToExist ''/a''" and mj' = afterA, THEN conjunct2, THEN conjunct2]
      j dpre dfail
    by blast
  have n: "[''/b'', ''/c''] ! 1 = ''/c''" "[''/a'', ''/a''] ! 1 = ''/a''" by simp_all
  from all have np: "createLoop 60 registry [''/b'', ''/c''] answering 0 \<noteq> Panics" by simp
  from diff k pre fail c1 np c2 j dpre dfail c3 show ?thesis
    unfolding n by (intro conjI)
qed

end
